theory Spec2Isabelle
  imports Main "HOL-Library.Word"
begin

section \<open>JavaScript values of the spreadsheet table\<close>

text \<open>
  A JavaScript string is a sequence of 16-bit code units. String literals of the source
  are written with \<open>js\<close> where they are ASCII; a code unit beyond ASCII is
  written as a number.
\<close>

type_synonym jsstring = "16 word list"

definition js :: "string \<Rightarrow> jsstring" where
  "js s = map of_char s"

text \<open>
  A cell of a row, as the handlers receive it from \<open>response.data.values\<close>: the
  spreadsheet service renders every cell as text, and a cell that the row does not
  hold reads as \<open>undefined\<close> when the row is destructured. \<open>null\<close> is the
  other value without methods.
\<close>

datatype valor = Undefined | Null | Str jsstring

type_synonym fila = "valor list"

datatype error = TypeError

text \<open>Truthiness, as \<open>!x\<close> and \<open>x ? a : b\<close> test it.\<close>

fun truthy :: "valor \<Rightarrow> bool" where
  "truthy Undefined = False"
| "truthy Null = False"
| "truthy (Str s) = (s \<noteq> [])"

text \<open>\<open>x.toString()\<close>: a method call on \<open>undefined\<close> or \<open>null\<close> throws.\<close>

fun toString :: "valor \<Rightarrow> error + jsstring" where
  "toString Undefined = Inl TypeError"
| "toString Null = Inl TypeError"
| "toString (Str s) = Inr s"

definition bindE :: "error + 'a \<Rightarrow> ('a \<Rightarrow> error + 'b) \<Rightarrow> error + 'b" where
  "bindE m f = (case m of Inl e \<Rightarrow> Inl e | Inr x \<Rightarrow> f x)"

text \<open>
  Array destructuring \<open>const [a, b, c, d] = row\<close>: position \<open>i\<close> of the row, or
  \<open>undefined\<close> when the row is shorter.
\<close>

definition celda :: "fila \<Rightarrow> nat \<Rightarrow> valor" where
  "celda row i = (if i < length row then row ! i else Undefined)"

section \<open>Character classes and string methods\<close>

text \<open>
  White space as \<open>\s\<close> and \<open>trim\<close> know it: the WhiteSpace and LineTerminator code
  points of ECMAScript.
\<close>

definition isWhiteSpace :: "16 word \<Rightarrow> bool" where
  "isWhiteSpace c \<longleftrightarrow>
     c = 0x9 \<or> c = 0xA \<or> c = 0xB \<or> c = 0xC \<or> c = 0xD \<or> c = 0x20 \<or> c = 0xA0 \<or>
     c = 0x1680 \<or> (0x2000 \<le> c \<and> c \<le> 0x200A) \<or> c = 0x2028 \<or> c = 0x2029 \<or>
     c = 0x202F \<or> c = 0x205F \<or> c = 0x3000 \<or> c = 0xFEFF"

definition isDigit :: "16 word \<Rightarrow> bool" where
  "isDigit c \<longleftrightarrow> 0x30 \<le> c \<and> c \<le> 0x39"

definition isLower :: "16 word \<Rightarrow> bool" where
  "isLower c \<longleftrightarrow> 0x61 \<le> c \<and> c \<le> 0x7A"

definition trim :: "jsstring \<Rightarrow> jsstring" where
  "trim s = rev (dropWhile isWhiteSpace (rev (dropWhile isWhiteSpace s)))"

text \<open>
  \<open>toLowerCase\<close>, one code unit at a time. The mapping is written out for Basic
  Latin and Latin-1, and for the two code units beyond them whose lower case holds an
  ASCII letter (U+0130, which becomes \<open>i\<close> and a combining dot, and the Kelvin sign
  U+212A, which becomes \<open>k\<close>). Every other code unit is left as it is: its lower case
  is never a letter \<open>a\<close> to \<open>z\<close>, a digit or white space, so \<open>generateProductId\<close>
  removes it either way.
\<close>

definition lowerUnit :: "16 word \<Rightarrow> jsstring" where
  "lowerUnit c =
     (if 0x41 \<le> c \<and> c \<le> 0x5A then [c + 0x20]
      else if 0xC0 \<le> c \<and> c \<le> 0xDE \<and> c \<noteq> 0xD7 then [c + 0x20]
      else if c = 0x130 then [0x69, 0x307]
      else if c = 0x212A then [0x6B]
      else [c])"

definition toLowerCase :: "jsstring \<Rightarrow> jsstring" where
  "toLowerCase s = concat (map lowerUnit s)"

text \<open>
  \<open>s.replace(/[...]/g, r)\<close> with a pattern that is one character class \<open>cls\<close>:
  every code unit of the class is replaced by \<open>r\<close>.
\<close>

definition replaceEach :: "(16 word \<Rightarrow> bool) \<Rightarrow> jsstring \<Rightarrow> jsstring \<Rightarrow> jsstring" where
  "replaceEach cls r s = concat (map (\<lambda>c. if cls c then r else [c]) s)"

text \<open>
  \<open>s.replace(/[...]+/g, r)\<close>: scanning from the left, the greedy \<open>+\<close> takes each
  maximal run of code units of the class, and the run is replaced by \<open>r\<close>.
\<close>

function replaceRuns :: "(16 word \<Rightarrow> bool) \<Rightarrow> jsstring \<Rightarrow> jsstring \<Rightarrow> jsstring" where
  "replaceRuns cls r [] = []"
| "replaceRuns cls r (c # cs) =
     (if cls c then r @ replaceRuns cls r (dropWhile cls cs)
      else c # replaceRuns cls r cs)"
  by pat_completeness auto
termination
  by (relation "measure (\<lambda>(cls, r, s). length s)")
     (auto simp: length_dropWhile_le less_Suc_eq_le)

section \<open>The identifier generator\<close>

text \<open>
  \<^verbatim>\<open>
  function generateProductId(nombre) {
    return nombre.toLowerCase()
      .replace(/[^a-z0-9\s]/g, '')
      .replace(/\s+/g, '-')
      .substring(0, 50);
  }
  \<close>
  \<open>noPermitido\<close> is the negated class \<open>[^a-z0-9\s]\<close>.
\<close>

definition noPermitido :: "16 word \<Rightarrow> bool" where
  "noPermitido c \<longleftrightarrow> \<not> (isLower c \<or> isDigit c \<or> isWhiteSpace c)"

definition generateProductId :: "jsstring \<Rightarrow> jsstring" where
  "generateProductId nombre =
     take 50 (replaceRuns isWhiteSpace (js ''-'')
       (replaceEach noPermitido [] (toLowerCase nombre)))"

section \<open>The validity pattern\<close>

text \<open>
  \<^verbatim>\<open>/del\s+(\d{2}\/\d{2}\/\d{4})\s+al\s+(\d{2}\/\d{2}\/\d{4})/i\<close>
  matched at the head of a string, piece by piece. Each matcher returns what is left of
  the string after its piece, or \<open>None\<close> when the piece does not match there.

  The letters of the pattern are lower-case ASCII letters. Under flag \<open>i\<close> (without
  flag \<open>u\<close>) such a letter matches the code units whose canonical form is the letter's
  capital: the letter \<open>p\<close> and its capital \<open>p - 0x20\<close>, since a code unit beyond
  ASCII is never canonicalised into ASCII.
\<close>

fun matchLit :: "jsstring \<Rightarrow> jsstring \<Rightarrow> jsstring option" where
  "matchLit [] s = Some s"
| "matchLit (p # ps) [] = None"
| "matchLit (p # ps) (c # cs) = (if c = p \<or> c = p - 0x20 then matchLit ps cs else None)"

text \<open>
  \<open>\s+\<close> is greedy, and what follows it in the pattern (a digit, or the letter
  \<open>a\<close>) is never white space: the only split that lets the rest match takes the
  whole run.
\<close>

fun matchSpaces :: "jsstring \<Rightarrow> jsstring option" where
  "matchSpaces [] = None"
| "matchSpaces (c # cs) = (if isWhiteSpace c then Some (dropWhile isWhiteSpace cs) else None)"

text \<open>\<open>(\d{2}\/\d{2}\/\d{4})\<close>: the captured text and the rest.\<close>

fun matchFecha :: "jsstring \<Rightarrow> (jsstring \<times> jsstring) option" where
  "matchFecha (d1 # d2 # s1 # m1 # m2 # s2 # y1 # y2 # y3 # y4 # rest) =
     (if isDigit d1 \<and> isDigit d2 \<and> s1 = 0x2F \<and> isDigit m1 \<and> isDigit m2 \<and> s2 = 0x2F \<and>
         isDigit y1 \<and> isDigit y2 \<and> isDigit y3 \<and> isDigit y4
      then Some ([d1, d2, s1, m1, m2, s2, y1, y2, y3, y4], rest) else None)"
| "matchFecha _ = None"

definition matchAt :: "jsstring \<Rightarrow> (jsstring \<times> jsstring) option" where
  "matchAt s =
     Option.bind (matchLit (js ''del'') s) (\<lambda>r1.
     Option.bind (matchSpaces r1) (\<lambda>r2.
     Option.bind (matchFecha r2) (\<lambda>(f1, r3).
     Option.bind (matchSpaces r3) (\<lambda>r4.
     Option.bind (matchLit (js ''al'') r4) (\<lambda>r5.
     Option.bind (matchSpaces r5) (\<lambda>r6.
     Option.bind (matchFecha r6) (\<lambda>(f2, r7). Some (f1, f2))))))))"

text \<open>
  \<open>vigenciaStr.match(re)\<close> with a pattern that is not global: the match at the
  leftmost position where the pattern matches, as its two captures, or \<open>None\<close> for
  \<open>null\<close>.
\<close>

fun matchVigencia :: "jsstring \<Rightarrow> (jsstring \<times> jsstring) option" where
  "matchVigencia [] = None"
| "matchVigencia (c # cs) =
     (case matchAt (c # cs) of Some r \<Rightarrow> Some r | None \<Rightarrow> matchVigencia cs)"

section \<open>The row normalizer\<close>

record producto =
  nombre :: jsstring
  vigenciaCompleta :: jsstring
  fechaInicio :: jsstring
  fechaFin :: jsstring
  compraMinima :: jsstring
  imagen :: jsstring
  ident :: jsstring
  fechaActualizacion :: jsstring

text \<open>
  The callback of \<open>rows.map\<close> in \<open>procesarProductos\<close>, on one row; \<open>ahora\<close> is what
  \<open>new Date().toISOString()\<close> returns when the row is processed. \<open>Inr None\<close> is
  the \<open>null\<close> of a skipped row, \<open>Inl\<close> a thrown exception. Field \<open>id\<close> of the
  source is \<open>ident\<close> here.
\<close>

definition procesarFila :: "jsstring \<Rightarrow> fila \<Rightarrow> error + producto option" where
  "procesarFila ahora row =
     (let nombreProducto = celda row 0; vigencia = celda row 1;
          compraMin = celda row 2; img = celda row 3
      in bindE (if \<not> truthy nombreProducto then Inr True
                else bindE (toString nombreProducto) (\<lambda>s. Inr (trim s = []))) (\<lambda>vacia.
         if vacia then Inr None
         else
           bindE (if truthy vigencia
                  then bindE (toString vigencia) (\<lambda>vigenciaStr.
                         case matchVigencia vigenciaStr of
                           Some (f1, f2) \<Rightarrow> Inr (f1, f2)
                         | None \<Rightarrow> Inr ([], []))
                  else Inr ([], [])) (\<lambda>(inicio, fin).
           bindE (toString nombreProducto) (\<lambda>n1.
           bindE (if truthy vigencia then toString vigencia else Inr []) (\<lambda>vc.
           bindE (if truthy compraMin then toString compraMin else Inr []) (\<lambda>cm.
           bindE (if truthy img then bindE (toString img) (\<lambda>s. Inr (trim s)) else Inr []) (\<lambda>im.
           bindE (toString nombreProducto) (\<lambda>n2.
           Inr (Some \<lparr> nombre = trim n1, vigenciaCompleta = vc,
                       fechaInicio = inicio, fechaFin = fin,
                       compraMinima = cm, imagen = im,
                       ident = generateProductId n2,
                       fechaActualizacion = ahora \<rparr>)))))))))"

text \<open>
  \<open>rows.map(callback)\<close>: the rows in order, row \<open>i\<close> stamped with the clock's
  reading \<open>reloj i\<close>; an exception in one row ends the whole pass.
\<close>

fun procesarFilas :: "(nat \<Rightarrow> jsstring) \<Rightarrow> nat \<Rightarrow> fila list \<Rightarrow> error + producto option list" where
  "procesarFilas reloj i [] = Inr []"
| "procesarFilas reloj i (row # rows) =
     bindE (procesarFila (reloj i) row) (\<lambda>r.
     bindE (procesarFilas reloj (Suc i) rows) (\<lambda>rs. Inr (r # rs)))"

text \<open>
  \<open>procesarProductos(rawData)\<close>; \<open>None\<close> is an absent table (\<open>undefined\<close>), which
  \<open>!rawData\<close> catches.
\<close>

definition procesarProductos :: "(nat \<Rightarrow> jsstring) \<Rightarrow> fila list option \<Rightarrow> error + producto list" where
  "procesarProductos reloj rawData =
     (case rawData of
        None \<Rightarrow> Inr []
      | Some tabla \<Rightarrow>
          if length tabla \<le> 1 then Inr []
          else bindE (procesarFilas reloj 0 (drop 1 tabla)) (\<lambda>rs.
                 Inr (map the (filter (\<lambda>r. r \<noteq> None) rs))))"

section \<open>The validator\<close>

definition msgNombre :: jsstring where
  "msgNombre = js ''Nombre requerido''"

definition msgImagen :: jsstring where
  "msgImagen = js ''Imagen requerida''"

definition msgCompra :: jsstring where
  "msgCompra = js ''Compra m'' @ [0xED] @ js ''nima requerida''"

record validacion =
  isValid :: bool
  errors :: "jsstring list"

text \<open>\<open>errors.push\<close> appends; \<open>!s\<close> on a string holds of the empty string only.\<close>

definition validateProducto :: "producto \<Rightarrow> validacion" where
  "validateProducto p =
     (let errors0 = [];
          errors1 = (if nombre p = [] then errors0 @ [msgNombre] else errors0);
          errors2 = (if imagen p = [] then errors1 @ [msgImagen] else errors1);
          errors3 = (if compraMinima p = [] then errors2 @ [msgCompra] else errors2)
      in \<lparr> isValid = (length errors3 = 0), errors = errors3 \<rparr>)"

section \<open>The handlers, from the fetched table on\<close>

datatype 'a respuesta = Exito 'a | NoEncontrado | ErrorInterno

text \<open>
  \<open>GET /api/productos/:id\<close>: \<open>productos.find(p => p.id === id)\<close>, status 404 when
  \<open>find\<close> returns \<open>undefined\<close>, and status 500 from the \<open>catch\<close> block.
\<close>

definition getProducto :: "(nat \<Rightarrow> jsstring) \<Rightarrow> fila list option \<Rightarrow> jsstring \<Rightarrow> producto respuesta" where
  "getProducto reloj values i =
     (case procesarProductos reloj values of
        Inl e \<Rightarrow> ErrorInterno
      | Inr productos \<Rightarrow>
          (case find (\<lambda>p. ident p = i) productos of
             None \<Rightarrow> NoEncontrado
           | Some p \<Rightarrow> Exito p))"

record categorias =
  conImagen :: nat
  sinImagen :: nat
  conVigencia :: nat

record stats =
  totalProductos :: nat
  productosActivos :: nat
  ultimaActualizacion :: jsstring
  categorias :: categorias

text \<open>The \<open>stats\<close> object of \<open>GET /api/stats\<close>, over the normalized products.\<close>

definition calcularStats :: "jsstring \<Rightarrow> producto list \<Rightarrow> stats" where
  "calcularStats ahora productos =
     \<lparr> totalProductos = length productos,
       productosActivos = length productos,
       ultimaActualizacion = ahora,
       categorias =
         \<lparr> conImagen = length (filter (\<lambda>p. imagen p \<noteq> []) productos),
           sinImagen = length (filter (\<lambda>p. \<not> (imagen p \<noteq> [])) productos),
           conVigencia = length (filter (\<lambda>p. vigenciaCompleta p \<noteq> []) productos) \<rparr> \<rparr>"

definition getStats :: "(nat \<Rightarrow> jsstring) \<Rightarrow> jsstring \<Rightarrow> fila list option \<Rightarrow> stats respuesta" where
  "getStats reloj ahora values =
     (case procesarProductos reloj values of
        Inl e \<Rightarrow> ErrorInterno
      | Inr productos \<Rightarrow> Exito (calcularStats ahora productos))"

record metadata =
  productosValidos :: nat
  productosInvalidos :: nat

text \<open>
  \<open>GET /api/productos\<close>: status 404 for an absent table; otherwise the products, their
  number, and the counts of valid and invalid products. Invalid products are counted and
  stay in the list.
\<close>

definition getProductos ::
  "(nat \<Rightarrow> jsstring) \<Rightarrow> fila list option \<Rightarrow> (producto list \<times> nat \<times> metadata) respuesta" where
  "getProductos reloj rawData =
     (if rawData = None then NoEncontrado
      else case procesarProductos reloj rawData of
        Inl e \<Rightarrow> ErrorInterno
      | Inr ps \<Rightarrow>
          (let productosInvalidos = filter (\<lambda>p. \<not> isValid (validateProducto p)) ps
           in Exito (ps, length ps,
                \<lparr> productosValidos = length (filter (\<lambda>p. isValid (validateProducto p)) ps),
                  productosInvalidos = length productosInvalidos \<rparr>)))"

section \<open>Notions of the statements\<close>

text \<open>The text of a cell: its string, and the empty string for a cell that is absent.\<close>

fun texto :: "valor \<Rightarrow> jsstring" where
  "texto (Str s) = s"
| "texto Undefined = []"
| "texto Null = []"

text \<open>The name cell of a row is present and not blank after trimming.\<close>

definition nombrePresente :: "fila \<Rightarrow> bool" where
  "nombrePresente row \<longleftrightarrow> trim (texto (celda row 0)) \<noteq> []"

text \<open>The data rows of a table: all rows but the header, none for an absent table.\<close>

fun filasDe :: "fila list option \<Rightarrow> fila list" where
  "filasDe None = []"
| "filasDe (Some tabla) = drop 1 tabla"

text \<open>The rows that survive: the data rows whose name is present, in table order.\<close>

definition filasConNombre :: "fila list option \<Rightarrow> fila list" where
  "filasConNombre rawData = filter nombrePresente (filasDe rawData)"

text \<open>A non-empty run of white space.\<close>

definition esBlanco :: "jsstring \<Rightarrow> bool" where
  "esBlanco w \<longleftrightarrow> w \<noteq> [] \<and> list_all isWhiteSpace w"

text \<open>A date of the form DD/MM/YYYY: digits and two slashes, ten code units.\<close>

definition esFecha :: "jsstring \<Rightarrow> bool" where
  "esFecha f \<longleftrightarrow>
     length f = 10 \<and> list_all isDigit (take 2 f) \<and> f ! 2 = 0x2F \<and>
     list_all isDigit (take 2 (drop 3 f)) \<and> f ! 5 = 0x2F \<and> list_all isDigit (drop 6 f)"

text \<open>
  The pieces of \<open>del <start> al <end>\<close>: the two words in any letter case, white
  space between the pieces, and two dates.
\<close>

definition forma ::
  "jsstring \<Rightarrow> jsstring \<Rightarrow> jsstring \<Rightarrow> jsstring \<Rightarrow> jsstring \<Rightarrow> jsstring \<Rightarrow> jsstring \<Rightarrow> bool" where
  "forma k1 w1 d1 w2 k2 w3 d2 \<longleftrightarrow>
     toLowerCase k1 = js ''del'' \<and> esBlanco w1 \<and> esFecha d1 \<and> esBlanco w2 \<and>
     toLowerCase k2 = js ''al'' \<and> esBlanco w3 \<and> esFecha d2"

text \<open>The text \<open>t\<close> begins with an occurrence of the pattern whose dates are \<open>d1\<close>, \<open>d2\<close>.\<close>

definition empiezaCon :: "jsstring \<Rightarrow> jsstring \<Rightarrow> jsstring \<Rightarrow> bool" where
  "empiezaCon t d1 d2 \<longleftrightarrow>
     (\<exists>k1 w1 w2 k2 w3 post.
        t = k1 @ w1 @ d1 @ w2 @ k2 @ w3 @ d2 @ post \<and> forma k1 w1 d1 w2 k2 w3 d2)"

section \<open>The identifier generator in the specification's words\<close>

text \<open>
  Collapsing white space: of each run of white space only its last code unit stays, and
  it becomes a hyphen.
\<close>

fun collapse_spec :: "jsstring \<Rightarrow> jsstring" where
  "collapse_spec [] = []"
| "collapse_spec [c] = [if isWhiteSpace c then 0x2D else c]"
| "collapse_spec (a # b # cs) =
     (if isWhiteSpace a \<and> isWhiteSpace b then collapse_spec (b # cs)
      else (if isWhiteSpace a then 0x2D else a) # collapse_spec (b # cs))"

text \<open>
  ``Lower-cases the name, removes every character that is not a lowercase letter, digit,
  or whitespace, collapses whitespace runs into a single hyphen, and truncates the result
  to 50 characters.''
\<close>

definition generateId_spec :: "jsstring \<Rightarrow> jsstring" where
  "generateId_spec name =
     take 50 (collapse_spec
       (filter (\<lambda>c. isLower c \<or> isDigit c \<or> isWhiteSpace c) (toLowerCase name)))"

section \<open>The row callback in closed form\<close>

text \<open>
  The two dates that the callback extracts from a validity text, and the product that it
  builds from a row with a name (lemma \<open>procesarFila_eq\<close> below).
\<close>

definition fechasDe :: "jsstring \<Rightarrow> jsstring \<times> jsstring" where
  "fechasDe s = (case matchVigencia s of Some r \<Rightarrow> r | None \<Rightarrow> ([], []))"

definition productoDe :: "jsstring \<Rightarrow> fila \<Rightarrow> producto" where
  "productoDe ahora row =
     \<lparr> nombre = trim (texto (celda row 0)),
       vigenciaCompleta = texto (celda row 1),
       fechaInicio = fst (fechasDe (texto (celda row 1))),
       fechaFin = snd (fechasDe (texto (celda row 1))),
       compraMinima = texto (celda row 2),
       imagen = trim (texto (celda row 3)),
       ident = generateProductId (texto (celda row 0)),
       fechaActualizacion = ahora \<rparr>"

section \<open>The scenarios of the specification\<close>

definition encabezado :: fila where
  "encabezado = [Str (js ''Name''), Str (js ''Validity''), Str (js ''Min''), Str (js ''Img'')]"

definition escenarioA :: "fila list" where
  "escenarioA =
     [encabezado,
      [Str (js ''Widget A''), Str (js ''del 01/01/2024 al 31/01/2024''),
       Str (js ''$100''), Str (js ''img1.png'')]]"

definition productoA :: "jsstring \<Rightarrow> producto" where
  "productoA ahora =
     \<lparr> nombre = js ''Widget A'',
       vigenciaCompleta = js ''del 01/01/2024 al 31/01/2024'',
       fechaInicio = js ''01/01/2024'',
       fechaFin = js ''31/01/2024'',
       compraMinima = js ''$100'',
       imagen = js ''img1.png'',
       ident = js ''widget-a'',
       fechaActualizacion = ahora \<rparr>"

definition escenarioB :: "fila list" where
  "escenarioB =
     [encabezado, [Str (js ''''), Str (js ''no vigencia''), Str (js ''''), Str (js '''')]]"

definition escenarioC :: "fila list" where
  "escenarioC =
     [encabezado, [Str (js ''Gadget B''), Str (js ''texto libre''), Str (js ''''), Str (js '''')]]"

definition productoC :: "jsstring \<Rightarrow> producto" where
  "productoC ahora =
     \<lparr> nombre = js ''Gadget B'',
       vigenciaCompleta = js ''texto libre'',
       fechaInicio = [],
       fechaFin = [],
       compraMinima = [],
       imagen = [],
       ident = js ''gadget-b'',
       fechaActualizacion = ahora \<rparr>"

text \<open>
  A table with a padded name, a blank name, an empty row, a row without a name cell,
  and a row that holds its name only.
\<close>

definition tablaMixta :: "fila list" where
  "tablaMixta =
     [encabezado,
      [Str (js '' Widget A ''), Str (js ''Vigencia: DEL  01/01/2024 Al 31/01/2024.'')],
      [Str (js ''   ''), Str (js ''del 01/01/2024 al 31/01/2024'')],
      [],
      [Undefined, Str (js ''texto libre''), Str (js ''$100'')],
      [Str (js ''Gadget B'')]]"

text \<open>A row whose minimum purchase and image cells hold white space only.\<close>

definition tablaBlancos :: "fila list" where
  "tablaBlancos =
     [encabezado, [Str (js ''Widget A''), Str (js ''''), Str (js ''  ''), Str (js ''  '')]]"

text \<open>Two rows whose names give the same identifier.\<close>

definition tablaColision :: "fila list" where
  "tablaColision =
     [encabezado,
      [Str (js ''Widget A''), Str (js ''''), Str (js ''$100''), Str (js ''img1.png'')],
      [Str (js ''widget  a!''), Str (js ''''), Str (js ''$200''), Str (js ''img2.png'')]]"

text \<open>Scenario A with a space before the name.\<close>

definition tablaEspacio :: "fila list" where
  "tablaEspacio =
     [encabezado,
      [Str (js '' Widget A''), Str (js ''del 01/01/2024 al 31/01/2024''),
       Str (js ''$100''), Str (js ''img1.png'')]]"

text \<open>A long name, with punctuation and repeated white space.\<close>

definition nombreLargo :: jsstring where
  "nombreLargo = js ''  Super  Rifa: 2x1 en Productos Participantes -- Edicion Especial 2024!!  ''"

section \<open>Auxiliary facts\<close>

lemmas clases = isWhiteSpace_def isDigit_def isLower_def noPermitido_def
lemmas eval_id = generateProductId_def replaceEach_def toLowerCase_def lowerUnit_def js_def clases

lemma bindE_Inr [simp]: "bindE (Inr x) f = f x" by (simp add: bindE_def)
lemma bindE_Inl [simp]: "bindE (Inl e) f = Inl e" by (simp add: bindE_def)

lemma procesarFila_eq:
  "procesarFila ahora row = Inr (if nombrePresente row then Some (productoDe ahora row) else None)"
proof (cases "celda row 0")
  case Undefined then show ?thesis by (simp add: procesarFila_def nombrePresente_def trim_def) next
  case Null then show ?thesis by (simp add: procesarFila_def nombrePresente_def trim_def) next
  case (Str n)
  show ?thesis
  proof (cases "n = []")
    case True with Str show ?thesis by (simp add: procesarFila_def nombrePresente_def trim_def)
  next
    case False
    have v: "(if truthy v then toString v else Inr []) = Inr (texto v)" for v
      by (cases v) auto
    have i: "(if truthy v then bindE (toString v) (\<lambda>s. Inr (trim s)) else Inr []) = Inr (trim (texto v))" for v
      by (cases v) (auto simp: trim_def)
    have f: "(if truthy v
                  then bindE (toString v) (\<lambda>vigenciaStr.
                         case matchVigencia vigenciaStr of
                           Some (f1, f2) \<Rightarrow> Inr (f1, f2)
                         | None \<Rightarrow> Inr ([], []))
                  else Inr ([], [])) = (Inr (fechasDe (texto v)) :: error + jsstring \<times> jsstring)" for v
      by (cases v) (auto simp: fechasDe_def split: option.splits)
    from Str False show ?thesis
      by (simp add: procesarFila_def nombrePresente_def Let_def v i f productoDe_def split_beta)
  qed
qed

lemma upper_of_lower:
  fixes x :: "16 word"
  assumes "0x61 \<le> x" "x \<le> 0x7A"
  shows "0x41 \<le> x - 0x20 \<and> x - 0x20 \<le> 0x5A"
  using assms by uint_arith

lemma lowerUnit_letter:
  assumes "isLower x" "x \<noteq> 0x69" "x \<noteq> 0x6B"
  shows "lowerUnit c = x # r \<longleftrightarrow> r = [] \<and> (c = x \<or> c = x - 0x20)"
proof -
  have x: "0x61 \<le> x" "x \<le> 0x7A" using assms(1) by (auto simp: isLower_def)
  note u = upper_of_lower[OF x]
  have nx: "\<not> (0x41 \<le> x \<and> x \<le> 0x5A)" "\<not> (0xC0 \<le> x \<and> x \<le> 0xDE)" "x \<noteq> 0x130" "x \<noteq> 0x212A"
    using x by (auto simp: word_le_nat_alt)
  have ny: "\<not> (0xC0 \<le> x - 0x20)" "x - 0x20 \<noteq> 0x130" "x - 0x20 \<noteq> 0x212A"
    using u by (auto simp: word_le_nat_alt)
  have eq: "c + 0x20 = x \<longleftrightarrow> c = x - 0x20" by auto
  consider (a) "0x41 \<le> c \<and> c \<le> 0x5A"
    | (b) "\<not> (0x41 \<le> c \<and> c \<le> 0x5A)" "0xC0 \<le> c \<and> c \<le> 0xDE \<and> c \<noteq> 0xD7"
    | (c) "\<not> (0x41 \<le> c \<and> c \<le> 0x5A)" "\<not> (0xC0 \<le> c \<and> c \<le> 0xDE \<and> c \<noteq> 0xD7)" "c = 0x130"
    | (d) "\<not> (0x41 \<le> c \<and> c \<le> 0x5A)" "\<not> (0xC0 \<le> c \<and> c \<le> 0xDE \<and> c \<noteq> 0xD7)" "c \<noteq> 0x130" "c = 0x212A"
    | (e) "\<not> (0x41 \<le> c \<and> c \<le> 0x5A)" "\<not> (0xC0 \<le> c \<and> c \<le> 0xDE \<and> c \<noteq> 0xD7)" "c \<noteq> 0x130" "c \<noteq> 0x212A"
    by blast
  then show ?thesis
  proof cases
    case a
    then have "lowerUnit c = [c + 0x20]" by (simp add: lowerUnit_def)
    moreover have "c \<noteq> x" using a nx(1) by blast
    ultimately show ?thesis using eq by auto
  next
    case b
    then have "lowerUnit c = [c + 0x20]" by (simp add: lowerUnit_def)
    moreover have "c \<noteq> x" using b nx(2) by blast
    moreover have "c \<noteq> x - 0x20" using b(1) u by blast
    ultimately show ?thesis using eq by auto
  next
    case c
    then have "lowerUnit c = [0x69, 0x307]" by (simp add: lowerUnit_def)
    then show ?thesis using assms(2) c(3) nx(3) ny(2) by auto
  next
    case d
    then have "lowerUnit c = [0x6B]" by (simp add: lowerUnit_def)
    then show ?thesis using assms(3) d(4) nx(4) ny(3) by auto
  next
    case e
    then have "lowerUnit c = [c]" by (simp add: lowerUnit_def)
    moreover have "c \<noteq> x - 0x20" using e(1) u by blast
    ultimately show ?thesis by auto
  qed
qed

lemma lower_lit:
  assumes "list_all (\<lambda>x. isLower x \<and> x \<noteq> 0x69 \<and> x \<noteq> 0x6B) lit"
  shows "toLowerCase k = lit \<longleftrightarrow> list_all2 (\<lambda>p c. c = p \<or> c = p - 0x20) lit k"
  using assms
proof (induction k arbitrary: lit)
  case Nil
  then show ?case by (auto simp: toLowerCase_def)
next
  case (Cons c k)
  have ne: "lowerUnit c \<noteq> []" by (simp add: lowerUnit_def)
  show ?case
  proof (cases lit)
    case Nil
    then show ?thesis using ne by (simp add: toLowerCase_def)
  next
    case (Cons x xs)
    with Cons.prems have x: "isLower x" "x \<noteq> 0x69" "x \<noteq> 0x6B"
      and xs: "list_all (\<lambda>x. isLower x \<and> x \<noteq> 0x69 \<and> x \<noteq> 0x6B) xs" by auto
    obtain y ys where y: "lowerUnit c = y # ys" using ne by (cases "lowerUnit c") auto
    have "toLowerCase (c # k) = x # xs \<longleftrightarrow> (c = x \<or> c = x - 0x20) \<and> toLowerCase k = xs"
      using lowerUnit_letter[OF x, of c ys] lowerUnit_letter[OF x, of c "[]"] y
      by (auto simp: toLowerCase_def)
    with Cons.IH[OF xs] Cons show ?thesis by simp
  qed
qed

lemma digit_not_ws: "isDigit c \<Longrightarrow> \<not> isWhiteSpace c"
  unfolding isDigit_def isWhiteSpace_def by (auto simp: word_le_nat_alt)

lemma matchLit_Some:
  "matchLit lit s = Some r \<longleftrightarrow>
     (\<exists>k. s = k @ r \<and> list_all2 (\<lambda>p c. c = p \<or> c = p - 0x20) lit k)"
proof (induction lit s rule: matchLit.induct)
  case (1 s) show ?case by auto
next
  case (2 p ps) show ?case by auto
next
  case (3 p ps c cs)
  show ?case
  proof (cases "c = p \<or> c = p - 0x20")
    case True
    with 3 show ?thesis
      apply (simp add: list_all2_Cons1)
      apply (rule iffI)
       apply (elim exE conjE)
      subgoal for k by (rule exI[of _ "c # k"]) auto
      apply (elim exE conjE)
      subgoal for k z zs by (cases k) auto
      done
  next
    case False
    then show ?thesis by (auto simp: list_all2_Cons1 Cons_eq_append_conv)
  qed
qed

lemma matchSpaces_Some:
  "matchSpaces s = Some r \<longleftrightarrow>
     (\<exists>w. s = w @ r \<and> esBlanco w \<and> (case r of [] \<Rightarrow> True | c # _ \<Rightarrow> \<not> isWhiteSpace c))"
proof (cases s)
  case Nil then show ?thesis by (auto simp: esBlanco_def)
next
  case (Cons c cs)
  show ?thesis
  proof
    assume "matchSpaces s = Some r"
    with Cons have c: "isWhiteSpace c" and r: "r = dropWhile isWhiteSpace cs"
      by (auto split: if_splits)
    have "s = (c # takeWhile isWhiteSpace cs) @ r" using Cons r by simp
    moreover have "esBlanco (c # takeWhile isWhiteSpace cs)"
      using c by (auto simp: esBlanco_def list_all_iff dest: set_takeWhileD)
    moreover have "case r of [] \<Rightarrow> True | c # _ \<Rightarrow> \<not> isWhiteSpace c"
      unfolding r by (metis (mono_tags, lifting) hd_dropWhile list.case_eq_if)
    ultimately show "\<exists>w. s = w @ r \<and> esBlanco w \<and> (case r of [] \<Rightarrow> True | c # _ \<Rightarrow> \<not> isWhiteSpace c)"
      by blast
  next
    assume "\<exists>w. s = w @ r \<and> esBlanco w \<and> (case r of [] \<Rightarrow> True | c # _ \<Rightarrow> \<not> isWhiteSpace c)"
    then obtain w where w: "s = w @ r" "esBlanco w" "case r of [] \<Rightarrow> True | c # _ \<Rightarrow> \<not> isWhiteSpace c"
      by blast
    from w(2) obtain d ds where wd: "w = d # ds" "isWhiteSpace d" "\<forall>x\<in>set ds. isWhiteSpace x"
      by (cases w) (auto simp: esBlanco_def list_all_iff)
    have "dropWhile isWhiteSpace (ds @ r) = r"
      using wd(3) w(3) by (cases r) (auto simp: dropWhile_append)
    with w(1) wd show "matchSpaces s = Some r" by simp
  qed
qed

lemma esFecha_list:
  "esFecha f \<longleftrightarrow>
     (\<exists>d1 d2 m1 m2 y1 y2 y3 y4. f = [d1, d2, 0x2F, m1, m2, 0x2F, y1, y2, y3, y4] \<and>
        isDigit d1 \<and> isDigit d2 \<and> isDigit m1 \<and> isDigit m2 \<and>
        isDigit y1 \<and> isDigit y2 \<and> isDigit y3 \<and> isDigit y4)"
proof
  assume e: "esFecha f"
  then have "length f = 10" by (simp add: esFecha_def)
  then obtain a b c d e' g h i j k where f: "f = [a, b, c, d, e', g, h, i, j, k]"
    by (auto simp: numeral_eq_Suc length_Suc_conv)
  with e show "\<exists>d1 d2 m1 m2 y1 y2 y3 y4. f = [d1, d2, 0x2F, m1, m2, 0x2F, y1, y2, y3, y4] \<and>
        isDigit d1 \<and> isDigit d2 \<and> isDigit m1 \<and> isDigit m2 \<and>
        isDigit y1 \<and> isDigit y2 \<and> isDigit y3 \<and> isDigit y4"
    by (simp add: esFecha_def)
next
  assume "\<exists>d1 d2 m1 m2 y1 y2 y3 y4. f = [d1, d2, 0x2F, m1, m2, 0x2F, y1, y2, y3, y4] \<and>
        isDigit d1 \<and> isDigit d2 \<and> isDigit m1 \<and> isDigit m2 \<and>
        isDigit y1 \<and> isDigit y2 \<and> isDigit y3 \<and> isDigit y4"
  then show "esFecha f" by (auto simp: esFecha_def)
qed

lemma matchFecha_Some:
  "matchFecha s = Some (f, r) \<longleftrightarrow> s = f @ r \<and> esFecha f"
proof
  assume m: "matchFecha s = Some (f, r)"
  then show "s = f @ r \<and> esFecha f"
    by (cases s rule: matchFecha.cases) (auto simp: esFecha_list split: if_splits)
next
  assume "s = f @ r \<and> esFecha f"
  then show "matchFecha s = Some (f, r)"
    by (auto simp: esFecha_list)
qed

lemma lower_del: "toLowerCase k = js ''del'' \<longleftrightarrow> list_all2 (\<lambda>p c. c = p \<or> c = p - 0x20) (js ''del'') k"
  by (rule lower_lit) (simp add: js_def isLower_def)

lemma lower_al: "toLowerCase k = js ''al'' \<longleftrightarrow> list_all2 (\<lambda>p c. c = p \<or> c = p - 0x20) (js ''al'') k"
  by (rule lower_lit) (simp add: js_def isLower_def)

lemma matchLit_append: "list_all2 (\<lambda>p c. c = p \<or> c = p - 0x20) lit k \<Longrightarrow> matchLit lit (k @ r) = Some r"
  by (auto simp: matchLit_Some)

lemma matchSpaces_append:
  "esBlanco w \<Longrightarrow> (case r of [] \<Rightarrow> True | c # _ \<Rightarrow> \<not> isWhiteSpace c) \<Longrightarrow> matchSpaces (w @ r) = Some r"
  by (auto simp: matchSpaces_Some)

lemma matchFecha_append: "esFecha f \<Longrightarrow> matchFecha (f @ r) = Some (f, r)"
  by (simp add: matchFecha_Some)

lemma esFecha_head: "esFecha f \<Longrightarrow> (case f @ r of [] \<Rightarrow> True | c # _ \<Rightarrow> \<not> isWhiteSpace c)"
  by (auto simp: esFecha_list digit_not_ws)

lemma al_head: "list_all2 (\<lambda>p c. c = p \<or> c = p - 0x20) (js ''al'') k \<Longrightarrow> (case k @ r of [] \<Rightarrow> True | c # _ \<Rightarrow> \<not> isWhiteSpace c)"
  by (auto simp: js_def list_all2_Cons1 isWhiteSpace_def)

lemma matchAt_iff: "matchAt t = Some (d1, d2) \<longleftrightarrow> empiezaCon t d1 d2"
proof
  assume "matchAt t = Some (d1, d2)"
  then obtain r1 r2 r3 r4 r5 r6 r7 where
    m: "matchLit (js ''del'') t = Some r1" "matchSpaces r1 = Some r2"
       "matchFecha r2 = Some (d1, r3)" "matchSpaces r3 = Some r4"
       "matchLit (js ''al'') r4 = Some r5" "matchSpaces r5 = Some r6"
       "matchFecha r6 = Some (d2, r7)"
    by (auto simp: matchAt_def bind_eq_Some_conv)
  from m(1) obtain k1 where k1: "t = k1 @ r1" "toLowerCase k1 = js ''del''"
    by (auto simp: matchLit_Some lower_del)
  from m(2) obtain w1 where w1: "r1 = w1 @ r2" "esBlanco w1" by (auto simp: matchSpaces_Some)
  from m(3) have d1: "r2 = d1 @ r3" "esFecha d1" by (auto simp: matchFecha_Some)
  from m(4) obtain w2 where w2: "r3 = w2 @ r4" "esBlanco w2" by (auto simp: matchSpaces_Some)
  from m(5) obtain k2 where k2: "r4 = k2 @ r5" "toLowerCase k2 = js ''al''"
    by (auto simp: matchLit_Some lower_al)
  from m(6) obtain w3 where w3: "r5 = w3 @ r6" "esBlanco w3" by (auto simp: matchSpaces_Some)
  from m(7) have d2: "r6 = d2 @ r7" "esFecha d2" by (auto simp: matchFecha_Some)
  have "t = k1 @ w1 @ d1 @ w2 @ k2 @ w3 @ d2 @ r7"
    using k1(1) w1(1) d1(1) w2(1) k2(1) w3(1) d2(1) by simp
  moreover have "forma k1 w1 d1 w2 k2 w3 d2"
    using k1(2) w1(2) d1(2) w2(2) k2(2) w3(2) d2(2) by (simp add: forma_def)
  ultimately show "empiezaCon t d1 d2" unfolding empiezaCon_def by blast
next
  assume "empiezaCon t d1 d2"
  then obtain k1 w1 w2 k2 w3 post where
    t: "t = k1 @ w1 @ d1 @ w2 @ k2 @ w3 @ d2 @ post" and f: "forma k1 w1 d1 w2 k2 w3 d2"
    unfolding empiezaCon_def by blast
  from f have k1: "list_all2 (\<lambda>p c. c = p \<or> c = p - 0x20) (js ''del'') k1" and k2: "list_all2 (\<lambda>p c. c = p \<or> c = p - 0x20) (js ''al'') k2"
    and w: "esBlanco w1" "esBlanco w2" "esBlanco w3" and d: "esFecha d1" "esFecha d2"
    by (simp_all add: forma_def lower_del lower_al)
  have 1: "matchLit (js ''del'') t = Some (w1 @ d1 @ w2 @ k2 @ w3 @ d2 @ post)"
    unfolding t by (rule matchLit_append[OF k1])
  have 2: "matchSpaces (w1 @ d1 @ w2 @ k2 @ w3 @ d2 @ post) = Some (d1 @ w2 @ k2 @ w3 @ d2 @ post)"
    by (rule matchSpaces_append[OF w(1) esFecha_head[OF d(1)]])
  have 3: "matchFecha (d1 @ w2 @ k2 @ w3 @ d2 @ post) = Some (d1, w2 @ k2 @ w3 @ d2 @ post)"
    by (rule matchFecha_append[OF d(1)])
  have 4: "matchSpaces (w2 @ k2 @ w3 @ d2 @ post) = Some (k2 @ w3 @ d2 @ post)"
    by (rule matchSpaces_append[OF w(2) al_head[OF k2]])
  have 5: "matchLit (js ''al'') (k2 @ w3 @ d2 @ post) = Some (w3 @ d2 @ post)"
    by (rule matchLit_append[OF k2])
  have 6: "matchSpaces (w3 @ d2 @ post) = Some (d2 @ post)"
    by (rule matchSpaces_append[OF w(3) esFecha_head[OF d(2)]])
  have 7: "matchFecha (d2 @ post) = Some (d2, post)"
    by (rule matchFecha_append[OF d(2)])
  show "matchAt t = Some (d1, d2)"
    by (simp add: matchAt_def 1 2 3 4 5 6 7)
qed

lemma matchAt_Nil: "matchAt [] = None"
  by (simp add: matchAt_def js_def)

lemma matchVigencia_None: "matchVigencia s = None \<longleftrightarrow> (\<forall>n. matchAt (drop n s) = None)"
proof (induction s)
  case Nil
  then show ?case by (simp add: matchAt_Nil)
next
  case (Cons c cs)
  have "(\<forall>n. matchAt (drop n (c # cs)) = None) \<longleftrightarrow>
        matchAt (c # cs) = None \<and> (\<forall>n. matchAt (drop n cs) = None)"
  proof safe
    fix n assume "\<forall>n. matchAt (drop n (c # cs)) = None"
    then show "matchAt (c # cs) = None" by (metis drop0)
  next
    fix n assume a: "\<forall>n. matchAt (drop n (c # cs)) = None"
    from a[rule_format, of "Suc n"] show "matchAt (drop n cs) = None" by simp
  next
    fix n assume "matchAt (c # cs) = None" "\<forall>n. matchAt (drop n cs) = None"
    then show "matchAt (drop n (c # cs)) = None" by (cases n) auto
  qed
  with Cons show ?case by (simp split: option.splits)
qed

lemma matchVigencia_leftmost:
  assumes "matchAt t = Some r" and "\<forall>n<length pre. matchAt (drop n (pre @ t)) = None"
  shows "matchVigencia (pre @ t) = Some r"
  using assms
proof (induction pre)
  case Nil
  then show ?case by (cases t) (auto simp: matchAt_Nil)
next
  case (Cons c pre)
  from Cons.prems(2)[rule_format, of 0] have h: "matchAt (c # pre @ t) = None" by simp
  have "\<forall>n<length pre. matchAt (drop n (pre @ t)) = None"
  proof (intro allI impI)
    fix n assume "n < length pre"
    with Cons.prems(2)[rule_format, of "Suc n"] show "matchAt (drop n (pre @ t)) = None" by simp
  qed
  with Cons.IH Cons.prems(1) h show ?case by simp
qed

lemma matchVigencia_Some:
  assumes "matchVigencia s = Some r"
  shows "\<exists>pre t. s = pre @ t \<and> matchAt t = Some r \<and> (\<forall>n<length pre. matchAt (drop n s) = None)"
  using assms
proof (induction s)
  case Nil
  then show ?case by simp
next
  case (Cons c cs)
  show ?case
  proof (cases "matchAt (c # cs)")
    case (Some r')
    with Cons.prems have "r' = r" by simp
    with Some have "c # cs = [] @ (c # cs) \<and> matchAt (c # cs) = Some r \<and>
        (\<forall>n<length ([]::jsstring). matchAt (drop n (c # cs)) = None)" by simp
    then show ?thesis by blast
  next
    case None
    with Cons.prems have "matchVigencia cs = Some r" by simp
    from Cons.IH[OF this] obtain pre t where
      p: "cs = pre @ t" "matchAt t = Some r" "\<forall>n<length pre. matchAt (drop n cs) = None"
      by blast
    have "\<forall>n<length (c # pre). matchAt (drop n (c # cs)) = None"
    proof (intro allI impI)
      fix n assume n: "n < length (c # pre)"
      show "matchAt (drop n (c # cs)) = None"
      proof (cases n)
        case 0 then show ?thesis using None by simp
      next
        case (Suc m) then show ?thesis using n p(3) by simp
      qed
    qed
    with p(1,2) have "c # cs = (c # pre) @ t \<and> matchAt t = Some r \<and>
       (\<forall>n<length (c # pre). matchAt (drop n (c # cs)) = None)" by simp
    then show ?thesis by blast
  qed
qed

lemma procesarFilas_eq:
  "procesarFilas reloj i rows =
     Inr (map (\<lambda>(j, row). if nombrePresente row then Some (productoDe (reloj j) row) else None)
            (enumerate i rows))"
  by (induction rows arbitrary: i) (simp_all add: procesarFila_eq)

lemma filter_the_enumerate:
  "map the (filter (\<lambda>r. r \<noteq> None)
      (map (\<lambda>(j, row). if nombrePresente row then Some (productoDe (reloj j) row) else None)
         (enumerate i rows))) =
   map (\<lambda>(j, row). productoDe (reloj j) row)
     (filter (\<lambda>(j, row). nombrePresente row) (enumerate i rows))"
  by (induction rows arbitrary: i) simp_all

lemma procesarProductos_eq:
  "procesarProductos reloj rawData =
     Inr (map (\<lambda>(j, row). productoDe (reloj j) row)
            (filter (\<lambda>(j, row). nombrePresente row) (enumerate 0 (filasDe rawData))))"
proof (cases rawData)
  case None
  then show ?thesis by (simp add: procesarProductos_def)
next
  case (Some tabla)
  show ?thesis
  proof (cases "length tabla \<le> 1")
    case True
    then have "drop 1 tabla = []" by simp
    with Some True show ?thesis by (simp add: procesarProductos_def)
  next
    case False
    with Some show ?thesis
      by (simp add: procesarProductos_def procesarFilas_eq filter_the_enumerate del: not_None_eq)
  qed
qed

lemma nombres_enumerate:
  "map nombre (map (\<lambda>(j, row). productoDe (reloj j) row)
       (filter (\<lambda>(j, row). nombrePresente row) (enumerate i rows))) =
   map (\<lambda>row. trim (texto (celda row 0))) (filter nombrePresente rows)"
  by (induction rows arbitrary: i) (simp_all add: productoDe_def)

lemma procesarProductos_origen:
  assumes "procesarProductos reloj rawData = Inr ps" and "p \<in> set ps"
  shows "\<exists>j row. j < length (filasDe rawData) \<and> row = filasDe rawData ! j \<and>
           nombrePresente row \<and> p = productoDe (reloj j) row"
proof -
  from assms obtain j row where
    "(j, row) \<in> set (enumerate 0 (filasDe rawData))" "nombrePresente row"
    "p = productoDe (reloj j) row"
    unfolding procesarProductos_eq by auto
  then have "j < length (filasDe rawData) \<and> row = filasDe rawData ! j \<and>
      nombrePresente row \<and> p = productoDe (reloj j) row"
    by (simp add: in_set_enumerate_eq)
  then show ?thesis by blast
qed

lemma replaceEach_filter:
  "replaceEach noPermitido [] s = filter (\<lambda>c. isLower c \<or> isDigit c \<or> isWhiteSpace c) s"
  by (induction s) (simp_all add: replaceEach_def noPermitido_def)

lemma replaceRuns_collapse_spec: "replaceRuns isWhiteSpace (js ''-'') s = collapse_spec s"
proof (induction s rule: collapse_spec.induct)
  case 1
  then show ?case by simp
next
  case (2 c)
  then show ?case by (simp add: js_def)
next
  case (3 a b cs)
  show ?case
  proof (cases "isWhiteSpace a \<and> isWhiteSpace b")
    case True
    with 3(1) show ?thesis by (simp add: js_def)
  next
    case False
    with 3(2) show ?thesis by (auto simp: js_def)
  qed
qed

lemma collapse_spec_units:
  "list_all (\<lambda>c. P c \<or> isWhiteSpace c) s \<Longrightarrow> list_all (\<lambda>c. (P c \<and> \<not> isWhiteSpace c) \<or> c = 0x2D) (collapse_spec s)"
  by (induction s rule: collapse_spec.induct) auto

lemma generateProductId_units:
  "list_all (\<lambda>c. isLower c \<or> isDigit c \<or> c = 0x2D) (generateProductId n)"
proof -
  let ?s = "filter (\<lambda>c. isLower c \<or> isDigit c \<or> isWhiteSpace c) (toLowerCase n)"
  have "list_all (\<lambda>c. (isLower c \<or> isDigit c) \<or> isWhiteSpace c) ?s"
    by (simp add: list_all_iff)
  from collapse_spec_units[OF this]
  have "list_all (\<lambda>c. isLower c \<or> isDigit c \<or> c = 0x2D) (collapse_spec ?s)"
    by (auto simp: list_all_iff)
  then have "list_all (\<lambda>c. isLower c \<or> isDigit c \<or> c = 0x2D) (take 50 (collapse_spec ?s))"
    by (auto simp: list_all_iff dest: in_set_takeD)
  then show ?thesis
    by (simp add: generateProductId_def replaceEach_filter replaceRuns_collapse_spec)
qed

lemma kept_enumerate:
  "map snd (filter (\<lambda>(j, row). P row) (enumerate i rows)) = filter P rows"
  by (induction rows arbitrary: i) simp_all

lemma procesarProductos_filas:
  "\<exists>ps. procesarProductos reloj rawData = Inr ps \<and>
        length ps = length (filter nombrePresente (filasDe rawData)) \<and>
        (\<forall>k<length ps. \<exists>j. ps ! k = productoDe (reloj j) (filter nombrePresente (filasDe rawData) ! k))"
proof -
  let ?es = "filter (\<lambda>(j, row). nombrePresente row) (enumerate 0 (filasDe rawData))"
  let ?ps = "map (\<lambda>(j, row). productoDe (reloj j) row) ?es"
  have k: "filter nombrePresente (filasDe rawData) = map snd ?es"
    by (simp add: kept_enumerate)
  have "length ?ps = length (filter nombrePresente (filasDe rawData))"
    unfolding k by simp
  moreover have "\<forall>k<length ?ps. \<exists>j. ?ps ! k = productoDe (reloj j) (filter nombrePresente (filasDe rawData) ! k)"
  proof (intro allI impI)
    fix n assume n: "n < length ?ps"
    then have "?ps ! n = productoDe (reloj (fst (?es ! n))) (snd (?es ! n))"
      by (simp add: split_beta)
    moreover have "snd (?es ! n) = filter nombrePresente (filasDe rawData) ! n"
      unfolding k using n by simp
    ultimately show "\<exists>j. ?ps ! n = productoDe (reloj j) (filter nombrePresente (filasDe rawData) ! n)"
      by metis
  qed
  ultimately show ?thesis using procesarProductos_eq[of reloj rawData] by blast
qed

lemma nombrePresente_kept:
  "k < length (filter nombrePresente rows) \<Longrightarrow> nombrePresente (filter nombrePresente rows ! k)"
  using nth_mem[of k "filter nombrePresente rows"] by simp

lemma procesarProductos_conNombre:
  "\<exists>ps. procesarProductos reloj rawData = Inr ps \<and>
        length ps = length (filasConNombre rawData) \<and>
        (\<forall>k<length ps. nombrePresente (filasConNombre rawData ! k) \<and>
           (\<exists>j. ps ! k = productoDe (reloj j) (filasConNombre rawData ! k)))"
  using procesarProductos_filas[of reloj rawData] nombrePresente_kept[of _ "filasDe rawData"]
  unfolding filasConNombre_def by metis

lemma fechasDe_None: "matchVigencia s = None \<Longrightarrow> fechasDe s = ([], [])"
  by (simp add: fechasDe_def)

lemma texto_falsy: "\<not> truthy v \<Longrightarrow> texto v = []"
  by (cases v) auto

lemma trim_Nil: "trim [] = []"
  by (simp add: trim_def)

lemma trim_blanco: "list_all isWhiteSpace w \<Longrightarrow> trim w = []"
proof -
  assume "list_all isWhiteSpace w"
  then have d: "dropWhile isWhiteSpace w = []" by (induction w) auto
  show ?thesis unfolding trim_def d by simp
qed

lemma matchAt_None_iff: "matchAt t = None \<longleftrightarrow> (\<forall>d1 d2. \<not> empiezaCon t d1 d2)"
proof -
  have "matchAt t = None \<longleftrightarrow> (\<forall>d1 d2. matchAt t \<noteq> Some (d1, d2))"
    by (cases "matchAt t") auto
  then show ?thesis by (simp add: matchAt_iff)
qed

lemma fechasDe_leftmost:
  assumes "empiezaCon t d1 d2"
    and "\<forall>n<length pre. \<forall>e1 e2. \<not> empiezaCon (drop n (pre @ t)) e1 e2"
  shows "fechasDe (pre @ t) = (d1, d2)"
proof -
  have "matchAt t = Some (d1, d2)" using assms(1) by (simp add: matchAt_iff)
  moreover have "\<forall>n<length pre. matchAt (drop n (pre @ t)) = None"
    using assms(2) by (simp add: matchAt_None_iff)
  ultimately have "matchVigencia (pre @ t) = Some (d1, d2)"
    by (rule matchVigencia_leftmost)
  then show ?thesis by (simp add: fechasDe_def)
qed

lemma fechasDe_sin_ocurrencia:
  assumes "\<forall>n e1 e2. \<not> empiezaCon (drop n s) e1 e2"
  shows "fechasDe s = ([], [])"
proof -
  have "\<forall>n. matchAt (drop n s) = None" using assms by (simp add: matchAt_None_iff)
  then have "matchVigencia s = None" by (simp add: matchVigencia_None)
  then show ?thesis by (rule fechasDe_None)
qed

lemma fechasDe_ambas:
  "fechasDe s = ([], []) \<or> (esFecha (fst (fechasDe s)) \<and> esFecha (snd (fechasDe s)))"
proof (cases "matchVigencia s")
  case None
  then show ?thesis by (simp add: fechasDe_def)
next
  case (Some r)
  obtain a b where r: "r = (a, b)" by (cases r)
  from matchVigencia_Some[OF Some] obtain t where "matchAt t = Some (a, b)"
    unfolding r by blast
  then have "empiezaCon t a b" by (simp add: matchAt_iff)
  then have "esFecha a \<and> esFecha b" by (auto simp: empiezaCon_def forma_def)
  then show ?thesis using Some r by (simp add: fechasDe_def)
qed

lemma empiezaCon_unica:
  "empiezaCon t d1 d2 \<Longrightarrow> empiezaCon t e1 e2 \<Longrightarrow> d1 = e1 \<and> d2 = e2"
  by (simp add: matchAt_iff[symmetric])

lemma matchAt_otra_letra: "c \<noteq> 0x64 \<Longrightarrow> c \<noteq> 0x44 \<Longrightarrow> matchAt (c # cs) = None"
  by (simp add: matchAt_def js_def)

lemma sin_ocurrencia_prefijo:
  assumes "list_all (\<lambda>c. c \<noteq> 0x64 \<and> c \<noteq> 0x44) pre"
  shows "\<forall>n<length pre. matchAt (drop n (pre @ t)) = None"
proof (intro allI impI)
  fix n assume n: "n < length pre"
  then have "drop n (pre @ t) = pre ! n # (drop (Suc n) pre @ t)"
    by (simp add: Cons_nth_drop_Suc)
  moreover have "pre ! n \<noteq> 0x64 \<and> pre ! n \<noteq> 0x44"
    using assms n by (simp add: list_all_length)
  ultimately show "matchAt (drop n (pre @ t)) = None"
    by (simp add: matchAt_otra_letra)
qed

lemma ident_de_celda:
  "\<exists>ps. procesarProductos reloj rawData = Inr ps \<and>
     length ps = length (filasConNombre rawData) \<and>
     (\<forall>k<length ps. ident (ps ! k) = generateProductId (texto (celda (filasConNombre rawData ! k) 0)) \<and>
        nombre (ps ! k) = trim (texto (celda (filasConNombre rawData ! k) 0)))"
proof -
  obtain ps where ps: "procesarProductos reloj rawData = Inr ps"
    "length ps = length (filasConNombre rawData)"
    "\<forall>k<length ps. nombrePresente (filasConNombre rawData ! k) \<and>
       (\<exists>j. ps ! k = productoDe (reloj j) (filasConNombre rawData ! k))"
    using procesarProductos_conNombre[of reloj rawData] by blast
  have "ident (ps ! k) = generateProductId (texto (celda (filasConNombre rawData ! k) 0)) \<and>
        nombre (ps ! k) = trim (texto (celda (filasConNombre rawData ! k) 0))"
    if "k < length ps" for k
    using ps(3) that by (auto simp: productoDe_def)
  with ps(1,2) show ?thesis by blast
qed

subsection \<open>The scenarios, evaluated\<close>

lemmas eval_match = matchAt_def js_def isWhiteSpace_def isDigit_def
lemmas eval_tabla = procesarProductos_def procesarFila_def celda_def trim_def
  generateProductId_def replaceEach_def toLowerCase_def lowerUnit_def noPermitido_def isLower_def
  eval_match encabezado_def

lemma escenarioA_productos:
  "procesarProductos reloj (Some escenarioA) = Inr [productoA (reloj 0)]"
  by (simp add: escenarioA_def productoA_def eval_tabla)

lemma escenarioB_productos:
  "procesarProductos reloj (Some escenarioB) = Inr []"
  by (simp add: escenarioB_def eval_tabla)

lemma escenarioC_productos:
  "procesarProductos reloj (Some escenarioC) = Inr [productoC (reloj 0)]"
  by (simp add: escenarioC_def productoC_def eval_tabla)

lemma msgs_distinct: "distinct [msgNombre, msgImagen, msgCompra]"
  by (simp add: msgNombre_def msgImagen_def msgCompra_def js_def)

section \<open>Claims on the identifier generator\<close>

text \<open>
  Claim C6. For every string, \<open>generateProductId\<close> is \<open>generateId_spec\<close>: the
  first 50 code units of the string in lower case, without the code units that are not a
  letter \<open>a\<close> to \<open>z\<close>, a digit or white space, with each run of white space
  collapsed into one hyphen. Its result holds only letters \<open>a\<close> to \<open>z\<close>, digits
  and hyphens, is at most 50 code units long, and is the same for equal arguments.
\<close>

theorem C6_generateProductId:
  "generateProductId n = generateId_spec n \<and>
   list_all (\<lambda>c. isLower c \<or> isDigit c \<or> c = 0x2D) (generateProductId n) \<and>
   length (generateProductId n) \<le> 50 \<and>
   (\<forall>m. m = n \<longrightarrow> generateProductId m = generateProductId n)"
proof -
  have "generateProductId n = generateId_spec n"
    by (simp add: generateProductId_def generateId_spec_def replaceEach_filter
        replaceRuns_collapse_spec)
  moreover have "length (generateProductId n) \<le> 50"
    by (simp add: generateProductId_def)
  ultimately show ?thesis using generateProductId_units[of n] by simp
qed

text \<open>The name of Scenario A, and a name whose identifier is cut at 50 code units.\<close>

theorem C6_generateProductId_witness:
  "generateProductId (js ''Widget A'') = js ''widget-a'' \<and>
   generateProductId nombreLargo = js ''-super-rifa-2x1-en-productos-participantes-edicion'' \<and>
   length (generateProductId nombreLargo) = 50"
proof -
  have a: "generateProductId (js ''Widget A'') = js ''widget-a''"
    by (simp add: eval_id)
  have b: "generateProductId nombreLargo = js ''-super-rifa-2x1-en-productos-participantes-edicion''"
    by (simp add: nombreLargo_def eval_id)
  have c: "length (js ''-super-rifa-2x1-en-productos-participantes-edicion'') = 50"
    by (simp add: js_def)
  from C6_generateProductId [of nombreLargo] a b c show ?thesis by simp
qed

text \<open>
  Claim C1: the identifier of every returned product is the identifier generator applied
  to the product's stored name. The code does not do this for a name cell with white
  space around the name: \<open>procesarProductos\<close> trims the cell for field \<open>nombre\<close>
  but hands the untrimmed cell text to \<open>generateProductId\<close> (lemma
  \<open>ident_de_celda\<close>). On Scenario A with a space before the name, the product's name
  is \<open>Widget A\<close>, its identifier is \<open>-widget-a\<close>, and the generator applied to the
  name gives \<open>widget-a\<close>.
\<close>

theorem C1_id_of_padded_name:
  "\<exists>p. procesarProductos (\<lambda>i. []) (Some tablaEspacio) = Inr [p] \<and>
     nombre p = js ''Widget A'' \<and>
     ident p = js ''-widget-a'' \<and>
     generateProductId (nombre p) = js ''widget-a'' \<and>
     ident p \<noteq> generateProductId (nombre p)"
proof -
  have "procesarProductos (\<lambda>i. []) (Some tablaEspacio) =
      Inr [(productoA []) \<lparr> ident := js ''-widget-a'' \<rparr>]"
    by (simp add: tablaEspacio_def productoA_def eval_tabla)
  moreover have "generateProductId (js ''Widget A'') = js ''widget-a''"
    by (simp add: eval_id)
  moreover have "js ''-widget-a'' \<noteq> js ''widget-a''"
    by (simp add: js_def)
  ultimately show ?thesis by (simp add: productoA_def)
qed

section \<open>Claims on the row normalizer\<close>

text \<open>
  Claim C3. Row selection of \<open>procesarProductos\<close>: for an absent table and for a table
  of at most one row the result is the empty sequence; in every case the header row is
  discarded and the names of the products are, in table order, the trimmed texts of the
  name cells of exactly those remaining rows whose name cell is present and not blank
  after trimming. So there is one product per such row, in the rows' order, and a row
  with a missing or white-space name yields no product and no error.
\<close>

theorem C3_row_selection:
  "(rawData = None \<or> (\<exists>tabla. rawData = Some tabla \<and> length tabla \<le> 1) \<longrightarrow>
      procesarProductos reloj rawData = Inr []) \<and>
   (\<exists>ps. procesarProductos reloj rawData = Inr ps \<and>
      map nombre ps =
        map (\<lambda>row. trim (texto (celda row 0))) (filter nombrePresente (filasDe rawData)))"
proof -
  have "procesarProductos reloj rawData = Inr []"
    if "rawData = None \<or> (\<exists>tabla. rawData = Some tabla \<and> length tabla \<le> 1)"
    using that by (auto simp: procesarProductos_def)
  moreover have "\<exists>ps. procesarProductos reloj rawData = Inr ps \<and>
      map nombre ps =
        map (\<lambda>row. trim (texto (celda row 0))) (filter nombrePresente (filasDe rawData))"
    using nombres_enumerate[of reloj 0 "filasDe rawData"]
    by (simp add: procesarProductos_eq)
  ultimately show ?thesis by blast
qed

text \<open>
  An absent table, a table of the header alone, Scenario A (one product, named
  \<open>Widget A\<close>), Scenario B (the only data row has a blank name), and a table of five
  data rows of which the first and the last have a name.
\<close>

theorem C3_row_selection_witness:
  "procesarProductos (\<lambda>i. []) None = Inr [] \<and>
   procesarProductos (\<lambda>i. []) (Some [encabezado]) = Inr [] \<and>
   (\<exists>ps. procesarProductos (\<lambda>i. []) (Some escenarioA) = Inr ps \<and> map nombre ps = [js ''Widget A'']) \<and>
   (\<exists>ps. procesarProductos (\<lambda>i. []) (Some escenarioB) = Inr ps \<and> map nombre ps = []) \<and>
   (\<exists>ps. procesarProductos (\<lambda>i. []) (Some tablaMixta) = Inr ps \<and>
      map nombre ps = [js ''Widget A'', js ''Gadget B''])"
  using C3_row_selection [of None "\<lambda>i. []"]
    C3_row_selection [of "Some [encabezado]" "\<lambda>i. []"]
    C3_row_selection [of "Some escenarioA" "\<lambda>i. []"]
    C3_row_selection [of "Some escenarioB" "\<lambda>i. []"]
    C3_row_selection [of "Some tablaMixta" "\<lambda>i. []"]
  by (simp add: escenarioA_def escenarioB_def tablaMixta_def nombrePresente_def celda_def trim_def js_def isWhiteSpace_def)

text \<open>
  Claim C2. For every surviving row and its product, with the text of the row's validity
  cell (empty when the cell is missing): \<open>vigenciaCompleta\<close> is that text verbatim;
  when the text holds an occurrence of \<open>del <DD/MM/YYYY> al <DD/MM/YYYY>\<close> (the two
  words in any letter case, the pieces separated by white space) and none begins further
  left, \<open>fechaInicio\<close> and \<open>fechaFin\<close> are exactly the two dates of that occurrence;
  when the text holds no occurrence, both are empty; and in every case the two fields are
  both empty or both dates of that form, never just one.
\<close>

theorem C2_validity_dates:
  "\<exists>ps. procesarProductos reloj rawData = Inr ps \<and>
     length ps = length (filasConNombre rawData) \<and>
     (\<forall>k<length ps.
        vigenciaCompleta (ps ! k) = texto (celda (filasConNombre rawData ! k) 1) \<and>
        (\<forall>pre t d1 d2.
           texto (celda (filasConNombre rawData ! k) 1) = pre @ t \<and> empiezaCon t d1 d2 \<and>
           (\<forall>n<length pre. \<forall>e1 e2. \<not> empiezaCon (drop n (pre @ t)) e1 e2) \<longrightarrow>
           fechaInicio (ps ! k) = d1 \<and> fechaFin (ps ! k) = d2) \<and>
        ((\<forall>n e1 e2. \<not> empiezaCon (drop n (texto (celda (filasConNombre rawData ! k) 1))) e1 e2) \<longrightarrow>
           fechaInicio (ps ! k) = [] \<and> fechaFin (ps ! k) = []) \<and>
        (fechaInicio (ps ! k) = [] \<and> fechaFin (ps ! k) = [] \<or>
         esFecha (fechaInicio (ps ! k)) \<and> esFecha (fechaFin (ps ! k))))"
proof -
  obtain ps where ps: "procesarProductos reloj rawData = Inr ps"
    "length ps = length (filasConNombre rawData)"
    "\<forall>k<length ps. nombrePresente (filasConNombre rawData ! k) \<and>
       (\<exists>j. ps ! k = productoDe (reloj j) (filasConNombre rawData ! k))"
    using procesarProductos_conNombre[of reloj rawData] by blast
  have "vigenciaCompleta (ps ! k) = texto (celda (filasConNombre rawData ! k) 1) \<and>
        (\<forall>pre t d1 d2.
           texto (celda (filasConNombre rawData ! k) 1) = pre @ t \<and> empiezaCon t d1 d2 \<and>
           (\<forall>n<length pre. \<forall>e1 e2. \<not> empiezaCon (drop n (pre @ t)) e1 e2) \<longrightarrow>
           fechaInicio (ps ! k) = d1 \<and> fechaFin (ps ! k) = d2) \<and>
        ((\<forall>n e1 e2. \<not> empiezaCon (drop n (texto (celda (filasConNombre rawData ! k) 1))) e1 e2) \<longrightarrow>
           fechaInicio (ps ! k) = [] \<and> fechaFin (ps ! k) = []) \<and>
        (fechaInicio (ps ! k) = [] \<and> fechaFin (ps ! k) = [] \<or>
         esFecha (fechaInicio (ps ! k)) \<and> esFecha (fechaFin (ps ! k)))"
    if k: "k < length ps" for k
  proof -
    let ?s = "texto (celda (filasConNombre rawData ! k) 1)"
    from ps(3) k obtain j where p: "ps ! k = productoDe (reloj j) (filasConNombre rawData ! k)"
      by blast
    have f: "fechaInicio (ps ! k) = fst (fechasDe ?s)" "fechaFin (ps ! k) = snd (fechasDe ?s)"
      and v: "vigenciaCompleta (ps ! k) = ?s"
      by (simp_all add: p productoDe_def)
    have a: "fechaInicio (ps ! k) = d1 \<and> fechaFin (ps ! k) = d2"
      if "?s = pre @ t \<and> empiezaCon t d1 d2 \<and>
           (\<forall>n<length pre. \<forall>e1 e2. \<not> empiezaCon (drop n (pre @ t)) e1 e2)" for pre t d1 d2
      using that fechasDe_leftmost[of t d1 d2 pre] by (simp add: f)
    have b: "fechaInicio (ps ! k) = [] \<and> fechaFin (ps ! k) = []"
      if "\<forall>n e1 e2. \<not> empiezaCon (drop n ?s) e1 e2"
      using fechasDe_sin_ocurrencia[OF that] by (simp add: f)
    have c: "fechaInicio (ps ! k) = [] \<and> fechaFin (ps ! k) = [] \<or>
         esFecha (fechaInicio (ps ! k)) \<and> esFecha (fechaFin (ps ! k))"
      using fechasDe_ambas[of ?s] by (auto simp: f)
    from v a b c show ?thesis by blast
  qed
  with ps(1,2) show ?thesis by blast
qed

text \<open>
  Two rows of one table: a validity text with the pattern after a prefix, in capitals
  and with two spaces after the first word, and a row without a validity cell.
\<close>

theorem C2_validity_dates_witness:
  "\<exists>ps. procesarProductos (\<lambda>i. []) (Some tablaMixta) = Inr ps \<and> length ps = 2 \<and>
     vigenciaCompleta (ps ! 0) = js ''Vigencia: DEL  01/01/2024 Al 31/01/2024.'' \<and>
     fechaInicio (ps ! 0) = js ''01/01/2024'' \<and> fechaFin (ps ! 0) = js ''31/01/2024'' \<and>
     vigenciaCompleta (ps ! 1) = [] \<and> fechaInicio (ps ! 1) = [] \<and> fechaFin (ps ! 1) = []"
proof -
  let ?pre = "js ''Vigencia: ''" and ?t = "js ''DEL  01/01/2024 Al 31/01/2024.''"
  let ?d1 = "js ''01/01/2024''" and ?d2 = "js ''31/01/2024''"
  let ?s0 = "texto (celda (filasConNombre (Some tablaMixta) ! 0) 1)"
  let ?s1 = "texto (celda (filasConNombre (Some tablaMixta) ! 1) 1)"
  from C2_validity_dates [of "\<lambda>i. []" "Some tablaMixta"]
  obtain ps where ps: "procesarProductos (\<lambda>i. []) (Some tablaMixta) = Inr ps"
    "length ps = length (filasConNombre (Some tablaMixta))"
    and h: "\<forall>k<length ps.
        vigenciaCompleta (ps ! k) = texto (celda (filasConNombre (Some tablaMixta) ! k) 1) \<and>
        (\<forall>pre t d1 d2.
           texto (celda (filasConNombre (Some tablaMixta) ! k) 1) = pre @ t \<and> empiezaCon t d1 d2 \<and>
           (\<forall>n<length pre. \<forall>e1 e2. \<not> empiezaCon (drop n (pre @ t)) e1 e2) \<longrightarrow>
           fechaInicio (ps ! k) = d1 \<and> fechaFin (ps ! k) = d2) \<and>
        ((\<forall>n e1 e2. \<not> empiezaCon (drop n (texto (celda (filasConNombre (Some tablaMixta) ! k) 1))) e1 e2) \<longrightarrow>
           fechaInicio (ps ! k) = [] \<and> fechaFin (ps ! k) = []) \<and>
        (fechaInicio (ps ! k) = [] \<and> fechaFin (ps ! k) = [] \<or>
         esFecha (fechaInicio (ps ! k)) \<and> esFecha (fechaFin (ps ! k)))"
    by blast
  have f: "filasConNombre (Some tablaMixta) = [tablaMixta ! 1, tablaMixta ! 5]"
    by (simp add: filasConNombre_def tablaMixta_def nombrePresente_def celda_def trim_def
        js_def isWhiteSpace_def)
  have len: "length ps = 2" using ps(2) f by simp
  have t0: "?s0 = ?pre @ ?t"
    by (simp add: f) (simp add: tablaMixta_def celda_def js_def)
  have t1: "?s1 = []"
    by (simp add: f) (simp add: tablaMixta_def celda_def)
  have "forma (js ''DEL'') (js ''  '') ?d1 (js '' '') (js ''Al'') (js '' '') ?d2"
    by (simp add: forma_def toLowerCase_def lowerUnit_def esBlanco_def esFecha_def js_def
        isWhiteSpace_def isDigit_def)
  moreover have "?t = js ''DEL'' @ js ''  '' @ ?d1 @ js '' '' @ js ''Al'' @ js '' '' @ ?d2 @ js ''.''"
    by (simp add: js_def)
  ultimately have e: "empiezaCon ?t ?d1 ?d2"
    unfolding empiezaCon_def by blast
  have "list_all (\<lambda>c. c \<noteq> 0x64 \<and> c \<noteq> 0x44) ?pre"
    by (simp add: js_def)
  then have "\<forall>n<length ?pre. matchAt (drop n (?pre @ ?t)) = None"
    by (rule sin_ocurrencia_prefijo)
  then have ne: "\<forall>n<length ?pre. \<forall>e1 e2. \<not> empiezaCon (drop n (?pre @ ?t)) e1 e2"
    by (simp only: matchAt_None_iff)
  have n1: "\<forall>n e1 e2. \<not> empiezaCon (drop n ?s1) e1 e2"
    unfolding t1 using matchAt_Nil by (simp add: matchAt_None_iff)
  have k0: "0 < length ps" and k1: "1 < length ps" using len by simp_all
  note h0 = h[rule_format, OF k0]
  note h1 = h[rule_format, OF k1]
  have v0: "vigenciaCompleta (ps ! 0) = ?pre @ ?t"
    using h0[THEN conjunct1] t0 by simp
  have d0: "fechaInicio (ps ! 0) = ?d1 \<and> fechaFin (ps ! 0) = ?d2"
    using h0[THEN conjunct2, THEN conjunct1, rule_format, of ?pre ?t ?d1 ?d2] t0 e ne by blast
  have v1: "vigenciaCompleta (ps ! 1) = []"
    using h1[THEN conjunct1] t1 by simp
  have d1: "fechaInicio (ps ! 1) = [] \<and> fechaFin (ps ! 1) = []"
    using h1[THEN conjunct2, THEN conjunct2, THEN conjunct1] n1 by blast
  have "?pre @ ?t = js ''Vigencia: DEL  01/01/2024 Al 31/01/2024.''"
    by (simp add: js_def)
  with ps(1) len v0 d0 v1 d1 show ?thesis by auto
qed

text \<open>
  Claim C10. White-space cells are treated differently in two columns. For every
  surviving row and its product: when the minimum-purchase cell is a non-empty run of
  white space, the product's \<open>compraMinima\<close> is that run unchanged and the validator
  does not report the minimum-purchase reason; when the image cell is a non-empty run of
  white space, the product's \<open>imagen\<close> is the empty string and the validator reports
  the image reason.
\<close>

theorem C10_whitespace_cells:
  "\<exists>ps. procesarProductos reloj rawData = Inr ps \<and>
     length ps = length (filasConNombre rawData) \<and>
     (\<forall>k<length ps. \<forall>w. esBlanco w \<longrightarrow>
        (celda (filasConNombre rawData ! k) 2 = Str w \<longrightarrow>
           compraMinima (ps ! k) = w \<and>
           msgCompra \<notin> set (errors (validateProducto (ps ! k)))) \<and>
        (celda (filasConNombre rawData ! k) 3 = Str w \<longrightarrow>
           imagen (ps ! k) = [] \<and>
           msgImagen \<in> set (errors (validateProducto (ps ! k)))))"
proof -
  obtain ps where ps: "procesarProductos reloj rawData = Inr ps"
    "length ps = length (filasConNombre rawData)"
    "\<forall>k<length ps. nombrePresente (filasConNombre rawData ! k) \<and>
       (\<exists>j. ps ! k = productoDe (reloj j) (filasConNombre rawData ! k))"
    using procesarProductos_conNombre[of reloj rawData] by blast
  have "(celda (filasConNombre rawData ! k) 2 = Str w \<longrightarrow>
           compraMinima (ps ! k) = w \<and>
           msgCompra \<notin> set (errors (validateProducto (ps ! k)))) \<and>
        (celda (filasConNombre rawData ! k) 3 = Str w \<longrightarrow>
           imagen (ps ! k) = [] \<and>
           msgImagen \<in> set (errors (validateProducto (ps ! k))))"
    if k: "k < length ps" and w: "esBlanco w" for k w
  proof -
    from ps(3) k obtain j where p: "ps ! k = productoDe (reloj j) (filasConNombre rawData ! k)"
      by blast
    from w have w1: "w \<noteq> []" and w2: "trim w = []"
      by (simp_all add: esBlanco_def trim_blanco)
    show ?thesis
      using w1 w2 msgs_distinct
      by (auto simp: p productoDe_def validateProducto_def Let_def)
  qed
  with ps(1,2) show ?thesis by blast
qed

text \<open>A row whose minimum-purchase and image cells are two spaces each.\<close>

theorem C10_whitespace_cells_witness:
  "\<exists>p. procesarProductos (\<lambda>i. []) (Some tablaBlancos) = Inr [p] \<and>
     compraMinima p = js ''  '' \<and> msgCompra \<notin> set (errors (validateProducto p)) \<and>
     imagen p = [] \<and> msgImagen \<in> set (errors (validateProducto p))"
proof -
  from C10_whitespace_cells [of "\<lambda>i. []" "Some tablaBlancos"]
  obtain ps where ps: "procesarProductos (\<lambda>i. []) (Some tablaBlancos) = Inr ps"
    "length ps = length (filasConNombre (Some tablaBlancos))"
    and h: "\<forall>k<length ps. \<forall>w. esBlanco w \<longrightarrow>
        (celda (filasConNombre (Some tablaBlancos) ! k) 2 = Str w \<longrightarrow>
           compraMinima (ps ! k) = w \<and>
           msgCompra \<notin> set (errors (validateProducto (ps ! k)))) \<and>
        (celda (filasConNombre (Some tablaBlancos) ! k) 3 = Str w \<longrightarrow>
           imagen (ps ! k) = [] \<and>
           msgImagen \<in> set (errors (validateProducto (ps ! k))))"
    by blast
  have f: "filasConNombre (Some tablaBlancos) = [tablaBlancos ! 1]"
    by (simp add: filasConNombre_def tablaBlancos_def nombrePresente_def celda_def trim_def
        js_def isWhiteSpace_def)
  have b: "esBlanco (js ''  '')"
    by (simp add: esBlanco_def js_def isWhiteSpace_def)
  have c: "celda (tablaBlancos ! 1) 2 = Str (js ''  '')" "celda (tablaBlancos ! 1) 3 = Str (js ''  '')"
    by (simp_all add: tablaBlancos_def celda_def)
  from ps(2) f obtain p where p: "ps = [p]"
    by (cases ps) auto
  from h[rule_format, of 0 "js ''  ''"] b c f p
  have r: "compraMinima p = js ''  ''" "msgCompra \<notin> set (errors (validateProducto p))"
    "imagen p = []" "msgImagen \<in> set (errors (validateProducto p))"
    by simp_all
  with ps(1) p show ?thesis by blast
qed

text \<open>
  Claim C7. For every table, absent or not, with rows of any length and cells that are
  text or missing: \<open>procesarProductos\<close> returns (no exception), with as many products
  as there are data rows with a name, so that a row disappears only for a blank or
  missing name; the listing (which validates every product), the lookup and the
  statistics built on it never end in the internal error; a row without a name yields \<open>null\<close>; and a row with a name yields a product
  whose derived fields are empty where the cell is missing or empty, or where the validity
  text does not match. \<open>generateProductId\<close>, \<open>validateProducto\<close> and the counts are
  functions on strings and on product records with no operation that can throw.
\<close>

theorem C7_total:
  "(\<exists>ps. procesarProductos reloj rawData = Inr ps \<and>
      length ps = length (filter nombrePresente (filasDe rawData))) \<and>
   getProductos reloj rawData \<noteq> ErrorInterno \<and>
   getProducto reloj rawData i \<noteq> ErrorInterno \<and>
   getStats reloj ahora rawData \<noteq> ErrorInterno \<and>
   (\<forall>row. \<not> nombrePresente row \<longrightarrow> procesarFila ahora row = Inr None) \<and>
   (\<forall>row. nombrePresente row \<longrightarrow>
      (\<exists>p. procesarFila ahora row = Inr (Some p) \<and>
         (\<not> truthy (celda row 1) \<longrightarrow> vigenciaCompleta p = []) \<and>
         (matchVigencia (texto (celda row 1)) = None \<longrightarrow> fechaInicio p = [] \<and> fechaFin p = []) \<and>
         (\<not> truthy (celda row 2) \<longrightarrow> compraMinima p = []) \<and>
         (\<not> truthy (celda row 3) \<longrightarrow> imagen p = [])))"
proof -
  have 1: "\<exists>ps. procesarProductos reloj rawData = Inr ps \<and>
      length ps = length (filter nombrePresente (filasDe rawData))"
    using procesarProductos_filas[of reloj rawData] by blast
  then have 2: "getProducto reloj rawData i \<noteq> ErrorInterno"
    by (auto simp: getProducto_def split: option.splits)
  from 1 have 3: "getStats reloj ahora rawData \<noteq> ErrorInterno"
    by (auto simp: getStats_def)
  from 1 have 0: "getProductos reloj rawData \<noteq> ErrorInterno"
    by (auto simp: getProductos_def Let_def)
  have 4: "\<forall>row. \<not> nombrePresente row \<longrightarrow> procesarFila ahora row = Inr None"
    by (simp add: procesarFila_eq)
  have 5: "\<forall>row. nombrePresente row \<longrightarrow>
      (\<exists>p. procesarFila ahora row = Inr (Some p) \<and>
         (\<not> truthy (celda row 1) \<longrightarrow> vigenciaCompleta p = []) \<and>
         (matchVigencia (texto (celda row 1)) = None \<longrightarrow> fechaInicio p = [] \<and> fechaFin p = []) \<and>
         (\<not> truthy (celda row 2) \<longrightarrow> compraMinima p = []) \<and>
         (\<not> truthy (celda row 3) \<longrightarrow> imagen p = []))"
    by (simp add: procesarFila_eq productoDe_def texto_falsy trim_Nil fechasDe_None)
  from 0 1 2 3 4 5 show ?thesis by blast
qed

text \<open>
  A table with short and empty rows; the empty row; a row that holds a name only.
\<close>

theorem C7_total_witness:
  "(\<exists>ps. procesarProductos (\<lambda>i. []) (Some tablaMixta) = Inr ps \<and> length ps = 2) \<and>
   getProductos (\<lambda>i. []) (Some tablaMixta) \<noteq> ErrorInterno \<and>
   getProducto (\<lambda>i. []) (Some tablaMixta) [] \<noteq> ErrorInterno \<and>
   getStats (\<lambda>i. []) [] (Some tablaMixta) \<noteq> ErrorInterno \<and>
   procesarFila [] [] = Inr None \<and>
   (\<exists>p. procesarFila [] [Str (js ''Gadget B'')] = Inr (Some p) \<and>
      vigenciaCompleta p = [] \<and> fechaInicio p = [] \<and> fechaFin p = [] \<and>
      compraMinima p = [] \<and> imagen p = [])"
proof -
  note t = C7_total [of "\<lambda>i. []" "Some tablaMixta" "[]" "[]"]
  have f: "length (filter nombrePresente (filasDe (Some tablaMixta))) = 2"
    by (simp add: tablaMixta_def nombrePresente_def celda_def trim_def js_def isWhiteSpace_def)
  from t f have 1: "\<exists>ps. procesarProductos (\<lambda>i. []) (Some tablaMixta) = Inr ps \<and> length ps = 2"
    by metis
  from t have 0: "getProductos (\<lambda>i. []) (Some tablaMixta) \<noteq> ErrorInterno"
    by blast
  from t have 2: "getProducto (\<lambda>i. []) (Some tablaMixta) [] \<noteq> ErrorInterno"
    and 3: "getStats (\<lambda>i. []) [] (Some tablaMixta) \<noteq> ErrorInterno"
    and 4: "\<forall>row. \<not> nombrePresente row \<longrightarrow> procesarFila [] row = Inr None"
    and 5: "\<forall>row. nombrePresente row \<longrightarrow>
      (\<exists>p. procesarFila [] row = Inr (Some p) \<and>
         (\<not> truthy (celda row 1) \<longrightarrow> vigenciaCompleta p = []) \<and>
         (matchVigencia (texto (celda row 1)) = None \<longrightarrow> fechaInicio p = [] \<and> fechaFin p = []) \<and>
         (\<not> truthy (celda row 2) \<longrightarrow> compraMinima p = []) \<and>
         (\<not> truthy (celda row 3) \<longrightarrow> imagen p = []))"
    by blast+
  have "\<not> nombrePresente []"
    by (simp add: nombrePresente_def celda_def trim_def)
  with 4 have 6: "procesarFila [] [] = Inr None" by blast
  let ?row = "[Str (js ''Gadget B'')]"
  have n: "nombrePresente ?row"
    by (simp add: nombrePresente_def celda_def trim_def js_def isWhiteSpace_def)
  have c: "\<not> truthy (celda ?row 1)" "matchVigencia (texto (celda ?row 1)) = None"
    "\<not> truthy (celda ?row 2)" "\<not> truthy (celda ?row 3)"
    by (simp_all add: celda_def)
  from 5 n c have 7: "\<exists>p. procesarFila [] ?row = Inr (Some p) \<and>
      vigenciaCompleta p = [] \<and> fechaInicio p = [] \<and> fechaFin p = [] \<and>
      compraMinima p = [] \<and> imagen p = []"
    by blast
  from 0 1 2 3 6 7 show ?thesis by blast
qed

section \<open>Claims on the validator and the aggregator\<close>

text \<open>
  Claim C4. For every product record, \<open>validateProducto\<close> answers \<open>isValid\<close> exactly
  when the three required fields \<open>nombre\<close>, \<open>imagen\<close> and \<open>compraMinima\<close> are all
  non-empty, and its \<open>errors\<close> list holds one fixed reason per empty field, the three
  fields being checked one after the other in the order name, image, minimum purchase,
  each whatever the others are. The three reasons are different strings.
\<close>

theorem C4_validate:
  "(isValid (validateProducto p) \<longleftrightarrow>
      nombre p \<noteq> [] \<and> imagen p \<noteq> [] \<and> compraMinima p \<noteq> []) \<and>
   errors (validateProducto p) =
     (if nombre p = [] then [msgNombre] else []) @
     (if imagen p = [] then [msgImagen] else []) @
     (if compraMinima p = [] then [msgCompra] else []) \<and>
   distinct [msgNombre, msgImagen, msgCompra]"
  using msgs_distinct by (simp add: validateProducto_def Let_def)

text \<open>
  The product of Scenario C lacks image and minimum purchase and gets these two
  reasons, in this order; the product of Scenario A is valid.
\<close>

theorem C4_validate_witness:
  "\<not> isValid (validateProducto (productoC [])) \<and>
   errors (validateProducto (productoC [])) = [msgImagen, msgCompra] \<and>
   isValid (validateProducto (productoA [])) \<and>
   errors (validateProducto (productoA [])) = []"
  using C4_validate [of "productoC []"] C4_validate [of "productoA []"]
  by (simp add: productoC_def productoA_def js_def)

text \<open>
  Claim C9. A product that \<open>procesarProductos\<close> returns has a non-empty name, so the
  validator never reports the name reason for it: its reasons are among the image
  reason and the minimum-purchase reason.
\<close>

theorem C9_name_error_unreachable:
  assumes "procesarProductos reloj rawData = Inr ps" and "p \<in> set ps"
  shows "nombre p \<noteq> [] \<and> msgNombre \<notin> set (errors (validateProducto p)) \<and>
         set (errors (validateProducto p)) \<subseteq> {msgImagen, msgCompra}"
proof -
  from procesarProductos_origen[OF assms] obtain j row where
    "nombrePresente row" "p = productoDe (reloj j) row" by blast
  then have n: "nombre p \<noteq> []" by (simp add: productoDe_def nombrePresente_def)
  then show ?thesis using msgs_distinct
    by (auto simp: validateProducto_def Let_def)
qed

text \<open>The product of Scenario C: its reasons are those for image and minimum purchase.\<close>

theorem C9_name_error_unreachable_witness:
  "procesarProductos (\<lambda>i. []) (Some escenarioC) = Inr [productoC []] \<and>
   productoC [] \<in> set [productoC []] \<and>
   msgNombre \<notin> set (errors (validateProducto (productoC []))) \<and>
   errors (validateProducto (productoC [])) = [msgImagen, msgCompra]"
proof -
  have h: "procesarProductos (\<lambda>i. []) (Some escenarioC) = Inr [productoC []]"
    by (rule escenarioC_productos)
  have m: "productoC [] \<in> set [productoC []]" by simp
  from C9_name_error_unreachable [OF h m]
  have "msgNombre \<notin> set (errors (validateProducto (productoC [])))" by blast
  moreover have "errors (validateProducto (productoC [])) = [msgImagen, msgCompra]"
    by (simp add: validateProducto_def productoC_def js_def)
  ultimately show ?thesis using h m by blast
qed

text \<open>
  Claim C5. For every sequence of products, the counts of the statistics satisfy:
  the count with an image and the count without one add up to the total, the count of
  active products is the total, the total is the length of the sequence, the two image
  counts are the numbers of products whose \<open>imagen\<close> is non-empty and empty, and the
  validity count is the number of products whose \<open>vigenciaCompleta\<close> is non-empty.
\<close>

theorem C5_stats:
  "conImagen (categorias (calcularStats ahora ps)) + sinImagen (categorias (calcularStats ahora ps)) =
     totalProductos (calcularStats ahora ps) \<and>
   productosActivos (calcularStats ahora ps) = totalProductos (calcularStats ahora ps) \<and>
   totalProductos (calcularStats ahora ps) = length ps \<and>
   conImagen (categorias (calcularStats ahora ps)) = length (filter (\<lambda>p. imagen p \<noteq> []) ps) \<and>
   sinImagen (categorias (calcularStats ahora ps)) = length (filter (\<lambda>p. imagen p = []) ps) \<and>
   conVigencia (categorias (calcularStats ahora ps)) = length (filter (\<lambda>p. vigenciaCompleta p \<noteq> []) ps)"
  using sum_length_filter_compl [of "\<lambda>p. imagen p \<noteq> []" ps]
  by (simp add: calcularStats_def)

text \<open>The products of Scenarios A and C together: two products, one image, two validity texts.\<close>

theorem C5_stats_witness:
  "totalProductos (calcularStats [] [productoA [], productoC []]) = 2 \<and>
   conImagen (categorias (calcularStats [] [productoA [], productoC []])) = 1 \<and>
   sinImagen (categorias (calcularStats [] [productoA [], productoC []])) = 1 \<and>
   conVigencia (categorias (calcularStats [] [productoA [], productoC []])) = 2"
  using C5_stats [of "[]" "[productoA [], productoC []]"]
  by (simp add: productoA_def productoC_def js_def)

section \<open>Claims on the lookup\<close>

text \<open>
  Claim C8. The lookup by identifier runs over the freshly normalized products, which are
  in the order of the surviving rows. It never ends in the internal error; it answers
  not-found exactly when no product has the identifier, and it answers with a product
  exactly when that product is the first one, in that order, whose identifier is the
  argument. On the table of Scenario A,
  the identifier generated from \<open>Widget A\<close> finds the product of that scenario and
  every other identifier is not found.
\<close>

theorem C8_findById:
  "\<exists>ps. procesarProductos reloj rawData = Inr ps \<and>
     length ps = length (filasConNombre rawData) \<and>
     (\<forall>k<length ps. nombre (ps ! k) = trim (texto (celda (filasConNombre rawData ! k) 0))) \<and>
     getProducto reloj rawData i \<noteq> ErrorInterno \<and>
     (getProducto reloj rawData i = NoEncontrado \<longleftrightarrow> (\<forall>p\<in>set ps. ident p \<noteq> i)) \<and>
     (\<forall>p. getProducto reloj rawData i = Exito p \<longleftrightarrow>
        (\<exists>n<length ps. p = ps ! n \<and> ident p = i \<and> (\<forall>m<n. ident (ps ! m) \<noteq> i))) \<and>
     getProducto reloj (Some escenarioA) (generateProductId (js ''Widget A'')) =
       Exito (productoA (reloj 0)) \<and>
     (\<forall>j. j \<noteq> generateProductId (js ''Widget A'') \<longrightarrow>
        getProducto reloj (Some escenarioA) j = NoEncontrado)"
proof -
  obtain ps where ps: "procesarProductos reloj rawData = Inr ps"
    and len: "length ps = length (filasConNombre rawData)"
    and nom: "\<forall>k<length ps. nombre (ps ! k) = trim (texto (celda (filasConNombre rawData ! k) 0))"
    using ident_de_celda[of reloj rawData] by blast
  have 1: "getProducto reloj rawData i \<noteq> ErrorInterno"
    by (simp add: getProducto_def ps split: option.splits)
  have 2: "getProducto reloj rawData i = NoEncontrado \<longleftrightarrow> (\<forall>p\<in>set ps. ident p \<noteq> i)"
  proof -
    have "getProducto reloj rawData i = NoEncontrado \<longleftrightarrow> find (\<lambda>p. ident p = i) ps = None"
      by (simp add: getProducto_def ps split: option.splits)
    also have "\<dots> \<longleftrightarrow> (\<forall>p\<in>set ps. ident p \<noteq> i)"
      unfolding find_None_iff by blast
    finally show ?thesis .
  qed
  have 3: "getProducto reloj rawData i = Exito p \<longleftrightarrow>
        (\<exists>n<length ps. p = ps ! n \<and> ident p = i \<and> (\<forall>m<n. ident (ps ! m) \<noteq> i))" for p
  proof -
    have "getProducto reloj rawData i = Exito p \<longleftrightarrow> find (\<lambda>p. ident p = i) ps = Some p"
      by (simp add: getProducto_def ps split: option.splits)
    also have "\<dots> \<longleftrightarrow> (\<exists>n<length ps. p = ps ! n \<and> ident p = i \<and> (\<forall>m<n. ident (ps ! m) \<noteq> i))"
      unfolding find_Some_iff by auto
    finally show ?thesis .
  qed
  have g: "generateProductId (js ''Widget A'') = js ''widget-a''"
    by (simp add: eval_id)
  have 4: "getProducto reloj (Some escenarioA) (generateProductId (js ''Widget A'')) =
       Exito (productoA (reloj 0))"
    by (simp add: getProducto_def escenarioA_productos g productoA_def)
  have 5: "\<forall>j. j \<noteq> generateProductId (js ''Widget A'') \<longrightarrow>
        getProducto reloj (Some escenarioA) j = NoEncontrado"
    by (simp add: getProducto_def escenarioA_productos g productoA_def)
  from ps len nom 1 2 3 4 5 show ?thesis by blast
qed

text \<open>
  Scenario A with the identifier \<open>widget-a\<close> and with another one; and a table in
  which two names give that identifier, where the lookup answers with the first row's
  product.
\<close>

theorem C8_findById_witness:
  "getProducto (\<lambda>i. []) (Some escenarioA) (js ''widget-a'') = Exito (productoA []) \<and>
   getProducto (\<lambda>i. []) (Some escenarioA) (js ''gadget-b'') = NoEncontrado \<and>
   (\<exists>p. getProducto (\<lambda>i. []) (Some tablaColision) (js ''widget-a'') = Exito p \<and>
        compraMinima p = js ''$100'')"
proof -
  have g: "generateProductId (js ''Widget A'') = js ''widget-a''"
    by (simp add: eval_id)
  have n: "js ''gadget-b'' \<noteq> generateProductId (js ''Widget A'')"
    by (simp add: g) (simp add: js_def)
  from C8_findById [of "\<lambda>i. []" "Some escenarioA" "js ''widget-a''"]
  have a: "getProducto (\<lambda>i. []) (Some escenarioA) (js ''widget-a'') = Exito (productoA [])"
    and b: "getProducto (\<lambda>i. []) (Some escenarioA) (js ''gadget-b'') = NoEncontrado"
    using g n by auto
  from C8_findById [of "\<lambda>i. []" "Some tablaColision" "js ''widget-a''"]
  obtain ps where ps: "procesarProductos (\<lambda>i. []) (Some tablaColision) = Inr ps"
    and ex: "\<forall>p. getProducto (\<lambda>i. []) (Some tablaColision) (js ''widget-a'') = Exito p \<longleftrightarrow>
        (\<exists>n<length ps. p = ps ! n \<and> ident p = js ''widget-a'' \<and>
           (\<forall>m<n. ident (ps ! m) \<noteq> js ''widget-a''))"
    by blast
  have "ps = [productoDe [] (tablaColision ! 1), productoDe [] (tablaColision ! 2)]"
    using ps by (simp add: procesarProductos_eq tablaColision_def nombrePresente_def celda_def
        trim_def js_def isWhiteSpace_def)
  then have p0: "0 < length ps" "ident (ps ! 0) = js ''widget-a''" "compraMinima (ps ! 0) = js ''$100''"
    by (simp_all add: productoDe_def tablaColision_def celda_def eval_id)
  from ex p0 have "getProducto (\<lambda>i. []) (Some tablaColision) (js ''widget-a'') = Exito (ps ! 0)"
    by auto
  with a b p0(3) show ?thesis by blast
qed

end
